theory Spec2Isabelle
  imports Main "HOL-Library.Sublist"
begin

section \<open>Go library functions that udp.go calls\<close>

text \<open>
  A Go string is a sequence of bytes; it is modelled as \<open>string\<close> (a list of 8-bit
  characters). The conversion \<open>string(message[0:bufLen])\<close> from a byte slice is then the
  identity.
\<close>

subsection \<open>Package strings\<close>

text \<open>\<open>strings.Contains(s, substr)\<close>: \<open>substr\<close> occurs in \<open>s\<close> at some offset.\<close>

fun Contains :: "string \<Rightarrow> string \<Rightarrow> bool" where
  "Contains [] substr = (substr = [])"
| "Contains (c # s) substr = (prefix substr (c # s) \<or> Contains s substr)"

text \<open>\<open>strings.Join(elems, sep)\<close>.\<close>

fun Join :: "string list \<Rightarrow> string \<Rightarrow> string" where
  "Join [] sep = []"
| "Join [x] sep = x"
| "Join (x # y # ys) sep = x @ sep @ Join (y # ys) sep"

subsection \<open>Package fmt\<close>

text \<open>
  The values that udp.go hands to \<open>fmt.Sprintf\<close> as \<open>interface{}\<close>: a string, an int
  (the line number), an error (known through the text of its \<open>Error()\<close> method), and a
  slice \<open>[]interface{}\<close> of such values. \<open>GSlice []\<close> stands for the nil slice, which is
  what a variadic parameter holds when no argument is passed.
\<close>

datatype gval = GString string | GInt int | GError string | GSlice "gval list"

fun digits :: "nat \<Rightarrow> string" where
  "digits n = (if n < 10 then [''0123456789'' ! n]
               else digits (n div 10) @ [''0123456789'' ! (n mod 10)])"

declare digits.simps [simp del]

definition Itoa :: "int \<Rightarrow> string" where
  "Itoa i = (if i < 0 then CHR ''-'' # digits (nat (- i)) else digits (nat i))"

definition hexdigit :: "nat \<Rightarrow> char" where
  "hexdigit n = ''0123456789abcdef'' ! n"

text \<open>
  \<open>strconv.Quote\<close>, one byte at a time: the quote and the backslash are escaped, printable
  ASCII stands for itself, the seven control characters with a letter escape get it, and
  every other byte is written \<open>\xNN\<close>. This is what Go prints for ASCII text and for bytes
  that are not part of a valid UTF-8 encoding; a valid multi-byte rune (which Go copies
  or writes as \<open>\u....\<close>) is outside this model.
\<close>

definition quoteByte :: "char \<Rightarrow> string" where
  "quoteByte c =
     (let n = (of_char c :: nat) in
      if n = 0x22 \<or> n = 0x5C then [CHR 0x5C, c]
      else if 0x20 \<le> n \<and> n < 0x7F then [c]
      else if n = 7 then [CHR 0x5C, CHR ''a'']
      else if n = 8 then [CHR 0x5C, CHR ''b'']
      else if n = 12 then [CHR 0x5C, CHR ''f'']
      else if n = 10 then [CHR 0x5C, CHR ''n'']
      else if n = 13 then [CHR 0x5C, CHR ''r'']
      else if n = 9 then [CHR 0x5C, CHR ''t'']
      else if n = 11 then [CHR 0x5C, CHR ''v'']
      else [CHR 0x5C, CHR ''x'', hexdigit (n div 16), hexdigit (n mod 16)])"

definition Quote :: "string \<Rightarrow> string" where
  "Quote s = CHR 0x22 # concat (map quoteByte s) @ [CHR 0x22]"

fun typeName :: "gval \<Rightarrow> string" where
  "typeName (GString s) = ''string''"
| "typeName (GInt i) = ''int''"
| "typeName (GError e) = ''error''"
| "typeName (GSlice vs) = ''[]interface {}''"

text \<open>
  \<open>printValue\<close> for the verbs \<open>%v\<close>, \<open>%s\<close>, \<open>%d\<close> and the flag \<open>#\<close>, which are the
  ones udp.go uses. A string under \<open>%#v\<close> is quoted; an int under \<open>%s\<close> and a string
  under \<open>%d\<close> are wrong verbs, reported as \<open>%!verb(type=value)\<close>; an error prints the
  text of \<open>Error()\<close>; a slice prints its elements with the same verb, between brackets
  and separated by spaces, or in Go syntax under \<open>%#v\<close>.
\<close>

fun printValue :: "bool \<Rightarrow> char \<Rightarrow> gval \<Rightarrow> string" where
  "printValue sharpV verb (GString s) =
     (if verb = CHR ''v'' then (if sharpV then Quote s else s)
      else if verb = CHR ''s'' then s
      else ''%!'' @ [verb] @ ''(string='' @ s @ '')'')"
| "printValue sharpV verb (GInt i) =
     (if verb = CHR ''v'' \<or> verb = CHR ''d'' then Itoa i
      else ''%!'' @ [verb] @ ''(int='' @ Itoa i @ '')'')"
| "printValue sharpV verb (GError e) =
     (if verb = CHR ''v'' \<or> verb = CHR ''s'' then e
      else ''%!'' @ [verb] @ ''(error='' @ e @ '')'')"
| "printValue sharpV verb (GSlice vs) =
     (if sharpV then
        (if vs = [] then ''[]interface {}(nil)''
         else ''[]interface {}{'' @ Join (map (printValue sharpV verb) vs) '', '' @ ''}'')
      else ''['' @ Join (map (printValue sharpV verb) vs) '' '' @ '']'')"

definition extraArgs :: "gval list \<Rightarrow> string" where
  "extraArgs args =
     (if args = [] then []
      else ''%!(EXTRA '' @
           Join (map (\<lambda>a. typeName a @ ''='' @ printValue False (CHR ''v'') a) args) '', '' @
           '')'')"

text \<open>
  \<open>doPrintf\<close>: literal text is copied; \<open>%\<close> starts a verb, \<open>#\<close> after it sets the flag,
  \<open>%%\<close> is a percent sign, a verb with no operand left prints \<open>%!verb(MISSING)\<close>, and
  operands left over at the end are listed as \<open>%!(EXTRA ...)\<close>.
\<close>

fun doPrintf :: "string \<Rightarrow> gval list \<Rightarrow> string"
  and doVerb :: "bool \<Rightarrow> string \<Rightarrow> gval list \<Rightarrow> string" where
  "doPrintf [] args = extraArgs args"
| "doPrintf (c # rest) args =
     (if c = CHR ''%'' then doVerb False rest args else c # doPrintf rest args)"
| "doVerb sharp [] args = ''%!(NOVERB)'' @ extraArgs args"
| "doVerb sharp (c # rest) args =
     (if c = CHR ''#'' then doVerb True rest args
      else if c = CHR ''%'' then CHR ''%'' # doPrintf rest args
      else (case args of
              [] \<Rightarrow> ''%!'' @ [c] @ ''(MISSING)'' @ doPrintf rest []
            | a # as \<Rightarrow> printValue (sharp \<and> c = CHR ''v'') c a @ doPrintf rest as))"

definition Sprintf :: "string \<Rightarrow> gval list \<Rightarrow> string" where
  "Sprintf format args = doPrintf format args"


section \<open>The package state and its surroundings\<close>

text \<open>
  The calls a \<open>TestingT\<close> can receive. The reporter \<open>t\<close> that every function of udp.go
  takes is modelled by the list of calls it has received so far (field \<open>reported\<close> below).
\<close>

datatype call = Errorf string | Error string | Fatal string

text \<open>A \<open>*net.UDPConn\<close>: the address it is bound to and whether it has been closed.\<close>

record UDPConn =
  laddr :: string
  closed :: bool

text \<open>
  What the code does to the network, in order: a socket bound by \<open>net.ListenUDP\<close>, the
  call of the action \<open>body()\<close>, a \<open>ReadFrom\<close> that returned \<open>n\<close>, a \<open>Close\<close>.
\<close>

datatype effect = Opened string | Ran | Read nat | Closed

text \<open>
  The package variables \<open>addr\<close> (a \<open>*string\<close>, nil at first), \<open>listener\<close> (a
  \<open>*net.UDPConn\<close>, nil at first), \<open>Timeout\<close> (a \<open>time.Duration\<close>, in nanoseconds) and
  \<open>logBuf\<close>, together with the reporter's calls and the trace of network effects.
\<close>

record world =
  addr :: "string option"
  listener :: "UDPConn option"
  Timeout :: int
  logBuf :: "string list"
  reported :: "call list"
  trace :: "effect list"

text \<open>The state when the package is loaded: \<open>Timeout = time.Millisecond\<close>.\<close>

definition init :: world where
  "init = \<lparr>addr = None, listener = None, Timeout = 1000000, logBuf = [],
           reported = [], trace = []\<rparr>"

text \<open>
  The operating system's answers during one collection cycle: the error of
  \<open>net.ResolveUDPAddr\<close> and of \<open>net.ListenUDP\<close> for an address (\<open>None\<close>: success), and
  the error of closing an open socket.
\<close>

record net =
  resolveErr :: "string \<Rightarrow> string option"
  listenErr :: "string \<Rightarrow> string option"
  closeErr :: "string option"

text \<open>
  What reaches the listener after the action has been called: a datagram with its
  payload, or a failure of the socket. Each comes with the time (in nanoseconds) from
  the moment the read that meets it sets its deadline to the moment that read can
  deliver it: the time the call itself needs for a datagram already queued (written 0
  where the timeout is far above it), the time until it arrives otherwise. The action
  \<open>body\<close> is known to the collector only through this list, so \<open>fn\<close> is the list of
  arrivals that one call of the action causes.
\<close>

datatype event = Packet string | Fault string

type_synonym arrival = "int \<times> event"

type_synonym fn = "arrival list"

text \<open>
  How a call ends early: a run-time panic (the nil pointer), or \<open>t.Fatal\<close>, which stops
  the test (\<open>runtime.Goexit\<close> for \<open>*testing.T\<close>). In both cases the deferred calls of the
  functions under way still run.
\<close>

datatype abort = Panic string | FailNow

type_synonym 'a result = "(abort + 'a) \<times> world"

definition t_Error :: "string \<Rightarrow> world \<Rightarrow> world" where
  "t_Error s w = w\<lparr>reported := reported w @ [Error s]\<rparr>"

definition t_Fatal :: "string \<Rightarrow> world \<Rightarrow> world" where
  "t_Fatal s w = w\<lparr>reported := reported w @ [Fatal s]\<rparr>"

section \<open>udp.go\<close>

definition resetLogBuf :: "world \<Rightarrow> world" where
  "resetLogBuf w = w\<lparr>logBuf := []\<rparr>"

text \<open>
  \<open>errorF(format, args...)\<close> calls \<open>fmt.Sprintf(format, args)\<close>: the variadic parameter
  \<open>args\<close>, a \<open>[]interface{}\<close>, is passed on as one operand.
\<close>

definition errorF :: "string \<Rightarrow> gval list \<Rightarrow> world \<Rightarrow> world" where
  "errorF format args w = w\<lparr>logBuf := logBuf w @ [Sprintf format [GSlice args]]\<rparr>"

definition emitLog :: "world \<Rightarrow> world" where
  "emitLog w =
     (if length (logBuf w) > 0
      then resetLogBuf (t_Error (Join (logBuf w) [CHR 0x0A]) w)
      else w)"

definition SetAddr :: "string \<Rightarrow> world \<Rightarrow> world" where
  "SetAddr a w = w\<lparr>addr := Some a\<rparr>"

text \<open>The assignment \<open>udp.Timeout = d\<close> of the exported variable.\<close>

definition SetTimeout :: "int \<Rightarrow> world \<Rightarrow> world" where
  "SetTimeout d w = w\<lparr>Timeout := d\<rparr>"

definition start :: "net \<Rightarrow> world \<Rightarrow> unit result" where
  "start os w =
     (case addr w of
        None \<Rightarrow> (Inl (Panic ''runtime error: invalid memory address or nil pointer dereference''), w)
      | Some a \<Rightarrow>
          (case resolveErr os a of
             Some e \<Rightarrow> (Inl FailNow, t_Fatal e w)
           | None \<Rightarrow>
               (case listenErr os a of
                  Some e \<Rightarrow> (Inl FailNow, t_Fatal e (w\<lparr>listener := None\<rparr>))
                | None \<Rightarrow>
                    (Inr (), w\<lparr>listener := Some \<lparr>laddr = a, closed = False\<rparr>,
                               trace := trace w @ [Opened a]\<rparr>))))"

text \<open>
  \<open>listener.Close()\<close> releases the socket whether or not it reports an error; closing a
  connection that is closed already is an error.
\<close>

definition stop :: "net \<Rightarrow> world \<Rightarrow> unit result" where
  "stop os w =
     (case listener w of
        None \<Rightarrow> (Inl (Panic ''runtime error: invalid memory address or nil pointer dereference''), w)
      | Some c \<Rightarrow>
          (if closed c then (Inl FailNow, t_Fatal ''use of closed network connection'' w)
           else
             (let w' = w\<lparr>listener := Some (c\<lparr>closed := True\<rparr>), trace := trace w @ [Closed]\<rparr>
              in case closeErr os of
                   Some e \<Rightarrow> (Inl FailNow, t_Fatal e w')
                 | None \<Rightarrow> (Inr (), w'))))"

text \<open>
  \<open>listener.ReadFrom(b)\<close> under the deadline \<open>now + timeout\<close>, with \<open>room = len(b)\<close>:
  the number of bytes read, the bytes, and the error. Nothing before the deadline is a
  timeout error with no bytes; the error is written \<open>i/o timeout\<close>, the last part of the
  text of the \<open>*net.OpError\<close> that Go returns (\<open>read udp\<close>, the local address, then
  \<open>i/o timeout\<close>). A datagram is copied into \<open>b\<close> as far as it fits and the rest of it
  is dropped, with no error; a datagram of length 0 gives \<open>n = 0\<close> and no error.
\<close>

definition ReadFrom :: "int \<Rightarrow> arrival list \<Rightarrow> nat \<Rightarrow> nat \<times> string \<times> string option" where
  "ReadFrom timeout pending room =
     (case pending of
        [] \<Rightarrow> (0, [], Some ''i/o timeout'')
      | (gap, ev) # rest \<Rightarrow>
          (if timeout \<le> gap then (0, [], Some ''i/o timeout'')
           else (case ev of
                   Packet d \<Rightarrow> (min (length d) room, take room d, None)
                 | Fault e \<Rightarrow> (0, [], Some e))))"

definition printLocation :: "string \<times> int \<Rightarrow> world \<Rightarrow> world" where
  "printLocation loc w = errorF ''At: %s:%d'' [GString (fst loc), GInt (snd loc)] w"

text \<open>
  The \<open>for\<close> loop of \<open>getMessage\<close>, from the state (\<open>message\<close>, \<open>bufLen\<close>) and with \<open>pending\<close>
  the arrivals the socket has not delivered yet. Each pass sets the deadline from the
  current \<open>Timeout\<close> and reads into \<open>message[bufLen:]\<close>, whose length is
  \<open>len(message) - bufLen\<close>; the bytes read overwrite \<open>message\<close> from offset \<open>bufLen\<close> on.
\<close>

function readLoop ::
  "bool \<Rightarrow> arrival list \<Rightarrow> string \<Rightarrow> nat \<Rightarrow> world \<Rightarrow> (string \<times> nat) \<times> world" where
  "readLoop expectData pending message bufLen w =
     (case ReadFrom (Timeout w) pending (length message - bufLen) of
        (n, dat, err) \<Rightarrow>
          (let w1 = w\<lparr>trace := trace w @ [Read n]\<rparr> in
           if n = 0 then
             ((message, bufLen),
              (case err of
                 Some e \<Rightarrow>
                   (if bufLen = 0 \<and> expectData
                    then errorF ''Error reading udp data: %v'' [GError e] w1
                    else w1)
               | None \<Rightarrow> w1))
           else
             readLoop expectData (tl pending)
               (take bufLen message @ dat @ drop (bufLen + n) message) (bufLen + n) w1))"
  by pat_completeness auto
termination
  by (relation "measure (\<lambda>(expectData, pending, message, bufLen, w). length pending)")
     (auto simp: ReadFrom_def split: list.splits if_splits event.splits)

declare readLoop.simps [simp del]

text \<open>
  \<open>getMessage\<close>: \<open>start\<close> runs before \<open>defer stop(t)\<close> is reached, so a failure of \<open>start\<close>
  leaves at once; afterwards \<open>stop\<close> runs when the function returns. The buffer is
  \<open>make([]byte, 1024*32)\<close>, all zero.
\<close>

definition getMessage :: "net \<Rightarrow> fn \<Rightarrow> bool \<Rightarrow> world \<Rightarrow> string result" where
  "getMessage os body expectData w =
     (case start os w of
        (Inl a, w1) \<Rightarrow> (Inl a, w1)
      | (Inr u, w1) \<Rightarrow>
          (case readLoop expectData body (replicate (1024 * 32) (CHR 0x00)) 0
                  (w1\<lparr>trace := trace w1 @ [Ran]\<rparr>) of
             ((message, bufLen), w2) \<Rightarrow>
               (let msg = take bufLen message in
                case stop os w2 of
                  (Inl a, w3) \<Rightarrow> (Inl a, w3)
                | (Inr u', w3) \<Rightarrow> (Inr msg, w3))))"

definition get :: "net \<Rightarrow> string \<Rightarrow> fn \<Rightarrow> bool \<Rightarrow> world \<Rightarrow> (string \<times> bool \<times> bool) result" where
  "get os match body expectData w =
     (case getMessage os body expectData w of
        (Inl a, w1) \<Rightarrow> (Inl a, w1)
      | (Inr got, w1) \<Rightarrow> (Inr (got, got = match, Contains got match), w1))"

text \<open>
  \<open>defer emitLog(t)\<close> is the first statement of every assertion: \<open>emitLog\<close> runs on the
  state in which the body ends, however it ends.
\<close>

definition defer_emitLog :: "'a result \<Rightarrow> 'a result" where
  "defer_emitLog r = (fst r, emitLog (snd r))"

text \<open>
  In the assertions, \<open>loc\<close> is the file and line that \<open>runtime.Caller(2)\<close> gives inside
  \<open>printLocation\<close>: the place the assertion was called from.
\<close>

definition ShouldReceiveOnly :: "net \<Rightarrow> string \<times> int \<Rightarrow> string \<Rightarrow> fn \<Rightarrow> world \<Rightarrow> unit result" where
  "ShouldReceiveOnly os loc expected body w =
     defer_emitLog
       (case get os expected body True w of
          (Inl a, w1) \<Rightarrow> (Inl a, w1)
        | (Inr (got, equals, contains), w1) \<Rightarrow>
            (Inr (),
             if \<not> equals
             then errorF ''But got: %#v'' [GString got]
                    (errorF ''Expected: %#v'' [GString expected] (printLocation loc w1))
             else w1))"

definition ShouldNotReceiveOnly :: "net \<Rightarrow> string \<times> int \<Rightarrow> string \<Rightarrow> fn \<Rightarrow> world \<Rightarrow> unit result" where
  "ShouldNotReceiveOnly os loc notExpected body w =
     defer_emitLog
       (case get os notExpected body False w of
          (Inl a, w1) \<Rightarrow> (Inl a, w1)
        | (Inr (got, equals, contains), w1) \<Rightarrow>
            (Inr (),
             if equals
             then errorF ''Expected not to get: %#v'' [GString notExpected] (printLocation loc w1)
             else w1))"

definition ShouldReceive :: "net \<Rightarrow> string \<times> int \<Rightarrow> string \<Rightarrow> fn \<Rightarrow> world \<Rightarrow> unit result" where
  "ShouldReceive os loc expected body w =
     defer_emitLog
       (case get os expected body False w of
          (Inl a, w1) \<Rightarrow> (Inl a, w1)
        | (Inr (got, equals, contains), w1) \<Rightarrow>
            (Inr (),
             if \<not> contains
             then errorF ''But got: %#v'' [GString got]
                    (errorF ''Expected: %#v'' [GString expected] (printLocation loc w1))
             else w1))"

definition ShouldNotReceive :: "net \<Rightarrow> string \<times> int \<Rightarrow> string \<Rightarrow> fn \<Rightarrow> world \<Rightarrow> unit result" where
  "ShouldNotReceive os loc expected body w =
     defer_emitLog
       (case get os expected body False w of
          (Inl a, w1) \<Rightarrow> (Inl a, w1)
        | (Inr (got, equals, contains), w1) \<Rightarrow>
            (Inr (),
             if contains
             then errorF ''But got: %#v'' [GString got]
                    (errorF ''Expected not to find: %#v'' [GString expected]
                       (printLocation loc w1))
             else w1))"

definition ShouldReceiveNothing :: "net \<Rightarrow> string \<times> int \<Rightarrow> fn \<Rightarrow> world \<Rightarrow> unit result" where
  "ShouldReceiveNothing os loc body w =
     defer_emitLog
       (case get os [] body False w of
          (Inl a, w1) \<Rightarrow> (Inl a, w1)
        | (Inr (got, equals, contains), w1) \<Rightarrow>
            (Inr (),
             if length got > 0
             then errorF ''Expected no data, but got: %#v'' [GString got] (printLocation loc w1)
             else w1))"

text \<open>
  The loop \<open>for _, str := range expected\<close> of \<open>ShouldReceiveAll\<close> and of
  \<open>ShouldReceiveAllAndNotReceiveAny\<close> (the same text in both), on the flag \<open>failed\<close> and
  the state.
\<close>

fun rangeExpected :: "string \<times> int \<Rightarrow> string \<Rightarrow> string list \<Rightarrow> bool \<times> world \<Rightarrow> bool \<times> world" where
  "rangeExpected loc got [] (failed, w) = (failed, w)"
| "rangeExpected loc got (str # rest) (failed, w) =
     (if \<not> Contains got str
      then rangeExpected loc got rest
             (True, errorF ''Expected to find: %#v'' [GString str]
                      (if \<not> failed then printLocation loc w else w))
      else rangeExpected loc got rest (failed, w))"

text \<open>
  The loop \<open>for _, str := range unexpected\<close> of \<open>ShouldNotReceiveAny\<close> and of
  \<open>ShouldReceiveAllAndNotReceiveAny\<close>.
\<close>

fun rangeUnexpected :: "string \<times> int \<Rightarrow> string \<Rightarrow> string list \<Rightarrow> bool \<times> world \<Rightarrow> bool \<times> world" where
  "rangeUnexpected loc got [] (failed, w) = (failed, w)"
| "rangeUnexpected loc got (str # rest) (failed, w) =
     (if Contains got str
      then rangeUnexpected loc got rest
             (True, errorF ''Expected not to find: %#v'' [GString str]
                      (if \<not> failed then printLocation loc w else w))
      else rangeUnexpected loc got rest (failed, w))"

definition ShouldReceiveAll :: "net \<Rightarrow> string \<times> int \<Rightarrow> string list \<Rightarrow> fn \<Rightarrow> world \<Rightarrow> unit result" where
  "ShouldReceiveAll os loc expected body w =
     defer_emitLog
       (case getMessage os body True w of
          (Inl a, w1) \<Rightarrow> (Inl a, w1)
        | (Inr got, w1) \<Rightarrow>
            (case rangeExpected loc got expected (False, w1) of
               (failed, w2) \<Rightarrow>
                 (Inr (), if failed then errorF ''But got: %#v'' [GString got] w2 else w2)))"

definition ShouldNotReceiveAny :: "net \<Rightarrow> string \<times> int \<Rightarrow> string list \<Rightarrow> fn \<Rightarrow> world \<Rightarrow> unit result" where
  "ShouldNotReceiveAny os loc unexpected body w =
     defer_emitLog
       (case getMessage os body False w of
          (Inl a, w1) \<Rightarrow> (Inl a, w1)
        | (Inr got, w1) \<Rightarrow>
            (case rangeUnexpected loc got unexpected (False, w1) of
               (failed, w2) \<Rightarrow>
                 (Inr (), if failed then errorF ''But got: %#v'' [GString got] w2 else w2)))"

definition ShouldReceiveAllAndNotReceiveAny ::
  "net \<Rightarrow> string \<times> int \<Rightarrow> string list \<Rightarrow> string list \<Rightarrow> fn \<Rightarrow> world \<Rightarrow> unit result" where
  "ShouldReceiveAllAndNotReceiveAny os loc expected unexpected body w =
     defer_emitLog
       (case getMessage os body True w of
          (Inl a, w1) \<Rightarrow> (Inl a, w1)
        | (Inr got, w1) \<Rightarrow>
            (case rangeUnexpected loc got unexpected
                    (rangeExpected loc got expected (False, w1)) of
               (failed, w2) \<Rightarrow>
                 (Inr (), if failed then errorF ''but got: %#v'' [GString got] w2 else w2)))"

text \<open>\<open>ReceiveString\<close> has no \<open>defer emitLog(t)\<close>.\<close>

definition ReceiveString :: "net \<Rightarrow> fn \<Rightarrow> world \<Rightarrow> string result" where
  "ReceiveString os body w = getMessage os body True w"

section \<open>What a collection cycle yields\<close>

text \<open>
  Three functions of the arrivals describe the loop of \<open>getMessage\<close> from outside, for
  a timeout \<open>T\<close> and \<open>room\<close> free bytes in the buffer: the bytes it collects, the error
  of the read that ends it, and the sizes of its reads in order. A datagram is taken
  when it arrives before the deadline, is not empty and the buffer is not full; the
  first arrival that is not taken ends the loop.
\<close>

fun captured :: "int \<Rightarrow> arrival list \<Rightarrow> nat \<Rightarrow> string" where
  "captured T [] room = []"
| "captured T ((gap, Packet d) # rest) room =
     (if gap < T \<and> d \<noteq> [] \<and> 0 < room
      then take room d @ captured T rest (room - length d) else [])"
| "captured T ((gap, Fault e) # rest) room = []"

fun endErr :: "int \<Rightarrow> arrival list \<Rightarrow> nat \<Rightarrow> string option" where
  "endErr T [] room = Some ''i/o timeout''"
| "endErr T ((gap, Packet d) # rest) room =
     (if T \<le> gap then Some ''i/o timeout''
      else if d = [] \<or> room = 0 then None
      else endErr T rest (room - length d))"
| "endErr T ((gap, Fault e) # rest) room =
     (if T \<le> gap then Some ''i/o timeout'' else Some e)"

fun readSizes :: "int \<Rightarrow> arrival list \<Rightarrow> nat \<Rightarrow> nat list" where
  "readSizes T [] room = [0]"
| "readSizes T ((gap, Packet d) # rest) room =
     (if gap < T \<and> d \<noteq> [] \<and> 0 < room
      then min (length d) room # readSizes T rest (room - length d) else [0])"
| "readSizes T ((gap, Fault e) # rest) room = [0]"

text \<open>
  The lines that the loop appends to \<open>logBuf\<close> when it ends with \<open>bufLen\<close> bytes and
  the error \<open>err\<close>.
\<close>

definition readFailure :: "bool \<Rightarrow> nat \<Rightarrow> string option \<Rightarrow> string list" where
  "readFailure expectData bufLen err =
     (case err of
        Some e \<Rightarrow> (if bufLen = 0 \<and> expectData
                   then [Sprintf ''Error reading udp data: %v'' [GSlice [GError e]]] else [])
      | None \<Rightarrow> [])"

text \<open>
  \<open>start\<close> succeeds: the address is set, it resolves and the socket is bound. The
  cycle completes when, in addition, the socket closes without an error.
\<close>

definition started :: "net \<Rightarrow> world \<Rightarrow> bool" where
  "started os w =
     (case addr w of
        None \<Rightarrow> False
      | Some a \<Rightarrow> resolveErr os a = None \<and> listenErr os a = None)"

definition completes :: "net \<Rightarrow> world \<Rightarrow> bool" where
  "completes os w = (started os w \<and> closeErr os = None)"

text \<open>The variable \<open>listener\<close> holds a socket that has not been closed.\<close>

definition socketOpen :: "world \<Rightarrow> bool" where
  "socketOpen w = (case listener w of None \<Rightarrow> False | Some c \<Rightarrow> \<not> closed c)"

text \<open>
  An operation passes when the reporter has received no call during it: no \<open>t.Error\<close>
  and no \<open>t.Fatal\<close>.
\<close>

definition noReport :: "world \<Rightarrow> 'a result \<Rightarrow> bool" where
  "noReport w r = (reported (snd r) = reported w)"

text \<open>
  For a cycle that runs in state \<open>w\<close> with the action \<open>body\<close>: the payload it
  returns (the buffer holds \<open>1024*32 = 32768\<close> bytes), the error of its last read, and
  the lines it appends to \<open>logBuf\<close>.
\<close>

definition capture :: "world \<Rightarrow> fn \<Rightarrow> string" where
  "capture w body = captured (Timeout w) body 32768"

definition cycleErr :: "world \<Rightarrow> fn \<Rightarrow> string option" where
  "cycleErr w body = endErr (Timeout w) body 32768"

definition collectorLines :: "bool \<Rightarrow> world \<Rightarrow> fn \<Rightarrow> string list" where
  "collectorLines expectData w body =
     readFailure expectData (length (capture w body)) (cycleErr w body)"

text \<open>The line that \<open>errorF(format, args...)\<close> appends to \<open>logBuf\<close>.\<close>

definition logged :: "string \<Rightarrow> gval list \<Rightarrow> string" where
  "logged format args = Sprintf format [GSlice args]"

text \<open>The calls that \<open>emitLog\<close> makes on the reporter when \<open>logBuf\<close> holds \<open>lines\<close>.\<close>

definition emitted :: "string list \<Rightarrow> call list" where
  "emitted lines = (if lines = [] then [] else [Error (Join lines [CHR 0x0A])])"

text \<open>
  The expected strings that the payload does not contain, and the unexpected strings
  that it contains, in the order of the list.
\<close>

definition missing :: "string \<Rightarrow> string list \<Rightarrow> string list" where
  "missing got expected = filter (\<lambda>str. \<not> Contains got str) expected"

definition present :: "string \<Rightarrow> string list \<Rightarrow> string list" where
  "present got unexpected = filter (\<lambda>str. Contains got str) unexpected"

text \<open>
  The effects of one cycle that binds its socket: the socket is opened, the action is
  called, the reads follow and the socket is closed.
\<close>

definition cycleEffects :: "world \<Rightarrow> fn \<Rightarrow> effect list" where
  "cycleEffects w body =
     (case addr w of
        None \<Rightarrow> []
      | Some a \<Rightarrow> Opened a # Ran # map Read (readSizes (Timeout w) body 32768) @ [Closed])"

text \<open>
  A trace keeps one socket at a time: a socket is opened only when none is open, the
  action is called and reads are made only while one is open, a socket is closed only
  when one is open, and none is open at the end. \<open>isOpen\<close> tells whether a socket is open
  before the first effect.
\<close>

fun oneAtATime :: "bool \<Rightarrow> effect list \<Rightarrow> bool" where
  "oneAtATime isOpen [] = (\<not> isOpen)"
| "oneAtATime isOpen (Opened a # es) = (\<not> isOpen \<and> oneAtATime True es)"
| "oneAtATime isOpen (Ran # es) = (isOpen \<and> oneAtATime isOpen es)"
| "oneAtATime isOpen (Read n # es) = (isOpen \<and> oneAtATime isOpen es)"
| "oneAtATime isOpen (Closed # es) = (isOpen \<and> oneAtATime False es)"

text \<open>
  The bytes of an arrival, and whether the loop takes it under the timeout \<open>T\<close> when
  the buffer has room: a datagram that is not empty and arrives before the deadline.
\<close>

definition payload :: "arrival \<Rightarrow> string" where
  "payload a = (case snd a of Packet d \<Rightarrow> d | Fault e \<Rightarrow> [])"

definition taken :: "int \<Rightarrow> arrival \<Rightarrow> bool" where
  "taken T a = (fst a < T \<and> (case snd a of Packet d \<Rightarrow> d \<noteq> [] | Fault e \<Rightarrow> False))"

text \<open>
  Concrete surroundings for the examples: every system call succeeds, the address is
  the one of the package's test, and the assertion is called from line 56 of it.
\<close>

definition os0 :: net where
  "os0 = \<lparr>resolveErr = (\<lambda>a. None), listenErr = (\<lambda>a. None), closeErr = None\<rparr>"

definition w0 :: world where
  "w0 = SetAddr '':8126'' init"

definition loc0 :: "string \<times> int" where
  "loc0 = (''udp_test.go'', 56)"

definition body3 :: fn where
  "body3 = [(0, Packet ''foo''), (0, Packet ''biz''), (0, Packet ''bar'')]"

section \<open>Properties of the library functions\<close>

lemma extraArgs_Nil [simp]: "extraArgs [] = []"
  by (simp add: extraArgs_def)

lemma Contains_sublist: "Contains s substr = sublist substr s"
  by (induction s) (auto simp: sublist_Cons_right)

section \<open>The collector\<close>

lemma length_captured: "length (captured T p room) \<le> room"
  by (induction T p room rule: captured.induct) auto

lemma sum_readSizes: "sum_list (readSizes T p room) = length (captured T p room)"
  by (induction T p room rule: captured.induct) (auto simp: min_def)

lemma readLoop_eq:
  "bufLen \<le> length message \<Longrightarrow>
   readLoop e p message bufLen w =
     (let c = captured (Timeout w) p (length message - bufLen) in
      ((take bufLen message @ c @ drop (bufLen + length c) message, bufLen + length c),
       w\<lparr>logBuf := logBuf w @
            readFailure e (bufLen + length c) (endErr (Timeout w) p (length message - bufLen)),
         trace := trace w @ map Read (readSizes (Timeout w) p (length message - bufLen))\<rparr>))"
proof (induction p arbitrary: message bufLen w)
  case Nil
  then show ?case
    by (simp add: readLoop.simps ReadFrom_def readFailure_def errorF_def)
next
  case (Cons a rest)
  obtain gap ev where a: "a = (gap, ev)" by (cases a)
  show ?case
  proof (cases ev)
    case (Fault x)
    with a Cons.prems show ?thesis
      by (simp add: readLoop.simps ReadFrom_def readFailure_def errorF_def)
  next
    case (Packet d)
    show ?thesis
    proof (cases "gap < Timeout w \<and> d \<noteq> [] \<and> 0 < length message - bufLen")
      case False
      with a Packet Cons.prems show ?thesis
        by (auto simp add: readLoop.simps ReadFrom_def readFailure_def errorF_def)
    next
      case True
      define n where "n = min (length d) (length message - bufLen)"
      define message' where
        "message' = take bufLen message @ take (length message - bufLen) d @ drop (bufLen + n) message"
      define w1 where "w1 = w\<lparr>trace := trace w @ [Read n]\<rparr>"
      have n0: "n \<noteq> 0" using True by (auto simp: n_def)
      have len: "length message' = length message"
        using Cons.prems by (auto simp add: message'_def n_def min_def ac_simps)
      have le: "bufLen + n \<le> length message'"
        using Cons.prems by (simp add: len n_def)
      have room: "length message' - (bufLen + n) = length message - bufLen - length d"
        by (simp add: len n_def min_def)
      have step: "readLoop e (a # rest) message bufLen w = readLoop e rest message' (bufLen + n) w1"
        using True n0 a Packet
        by (subst readLoop.simps) (simp add: ReadFrom_def n_def [symmetric] message'_def w1_def Let_def)
      have tk: "take (bufLen + n) message' = take bufLen message @ take (length message - bufLen) d"
        using Cons.prems by (auto simp add: message'_def n_def min_def ac_simps)
      have dr: "\<And>k. drop (bufLen + (n + k)) message' = drop (bufLen + (n + k)) message"
        using Cons.prems by (auto simp add: message'_def n_def min_def ac_simps)
      have ln: "length (take (length message - bufLen) d) = n"
        by (simp add: n_def)
      show ?thesis
        unfolding step
        apply (subst Cons.IH [OF le])
        using True a Packet ln
        apply (simp add: Let_def room tk dr w1_def add.assoc)
        done
    qed
  qed
qed

lemma getMessage_run:
  assumes "addr w = Some a" "resolveErr os a = None" "listenErr os a = None"
  shows "getMessage os body e w =
     (let c = captured (Timeout w) body 32768;
          w' = w\<lparr>listener := Some \<lparr>laddr = a, closed = True\<rparr>,
                 logBuf := logBuf w @ readFailure e (length c) (endErr (Timeout w) body 32768),
                 trace := trace w @ Opened a # Ran #
                            map Read (readSizes (Timeout w) body 32768) @ [Closed]\<rparr>
      in case closeErr os of
           None \<Rightarrow> (Inr c, w')
         | Some x \<Rightarrow> (Inl FailNow, t_Fatal x w'))"
  using assms
  by (simp add: getMessage_def start_def readLoop_eq stop_def Let_def t_Fatal_def
           split: option.splits)

lemma getMessage_not_started:
  "\<not> started os w \<Longrightarrow>
   getMessage os body e w =
     (case addr w of
        None \<Rightarrow> (Inl (Panic ''runtime error: invalid memory address or nil pointer dereference''), w)
      | Some a \<Rightarrow>
         (case resolveErr os a of
            Some x \<Rightarrow> (Inl FailNow, t_Fatal x w)
          | None \<Rightarrow> (case listenErr os a of
                       Some x \<Rightarrow> (Inl FailNow, t_Fatal x (w\<lparr>listener := None\<rparr>))
                     | None \<Rightarrow> (Inl FailNow, w))))"
  by (auto simp: getMessage_def start_def started_def split: option.splits)

section \<open>The assertions\<close>

lemma errorF_simps [simp]:
  "logBuf (errorF format args w) = logBuf w @ [logged format args]"
  "reported (errorF format args w) = reported w"
  "trace (errorF format args w) = trace w"
  "listener (errorF format args w) = listener w"
  "addr (errorF format args w) = addr w"
  "Timeout (errorF format args w) = Timeout w"
  by (simp_all add: errorF_def logged_def)

lemma errorF_eq: "errorF format args w = w\<lparr>logBuf := logBuf w @ [logged format args]\<rparr>"
  by (simp add: errorF_def logged_def)

lemma emitLog_eq: "emitLog w = w\<lparr>logBuf := [], reported := reported w @ emitted (logBuf w)\<rparr>"
  by (simp add: emitLog_def emitted_def resetLogBuf_def t_Error_def)

lemma rangeExpected_eq:
  "rangeExpected loc got xs (failed, w) =
     (failed \<or> missing got xs \<noteq> [],
      w\<lparr>logBuf := logBuf w @
           (if \<not> failed \<and> missing got xs \<noteq> []
            then [logged ''At: %s:%d'' [GString (fst loc), GInt (snd loc)]] else []) @
           map (\<lambda>str. logged ''Expected to find: %#v'' [GString str]) (missing got xs)\<rparr>)"
  by (induction xs arbitrary: failed w)
     (auto simp: missing_def errorF_eq printLocation_def)

lemma rangeUnexpected_eq:
  "rangeUnexpected loc got xs (failed, w) =
     (failed \<or> present got xs \<noteq> [],
      w\<lparr>logBuf := logBuf w @
           (if \<not> failed \<and> present got xs \<noteq> []
            then [logged ''At: %s:%d'' [GString (fst loc), GInt (snd loc)]] else []) @
           map (\<lambda>str. logged ''Expected not to find: %#v'' [GString str]) (present got xs)\<rparr>)"
  by (induction xs arbitrary: failed w)
     (auto simp: present_def errorF_eq printLocation_def)

lemma getMessage_completes:
  assumes "completes os w"
  shows "getMessage os body e w =
     (Inr (capture w body),
      w\<lparr>listener := Some \<lparr>laddr = the (addr w), closed = True\<rparr>,
        logBuf := logBuf w @ collectorLines e w body,
        trace := trace w @ Opened (the (addr w)) # Ran #
                   map Read (readSizes (Timeout w) body 32768) @ [Closed]\<rparr>)"
proof -
  from assms obtain a where a: "addr w = Some a" "resolveErr os a = None" "listenErr os a = None"
    and c: "closeErr os = None"
    by (auto simp: completes_def started_def split: option.splits)
  show ?thesis
    by (simp add: getMessage_run [OF a] c a capture_def cycleErr_def collectorLines_def Let_def)
qed

lemma ShouldReceiveAll_completes:
  assumes "completes os w"
  shows "reported (snd (ShouldReceiveAll os loc expected body w)) =
     reported w @ emitted (logBuf w @ collectorLines True w body @
       (if missing (capture w body) expected = [] then []
        else logged ''At: %s:%d'' [GString (fst loc), GInt (snd loc)] #
             map (\<lambda>str. logged ''Expected to find: %#v'' [GString str])
               (missing (capture w body) expected) @
             [logged ''But got: %#v'' [GString (capture w body)]]))"
  by (simp add: ShouldReceiveAll_def getMessage_completes [OF assms] rangeExpected_eq
        defer_emitLog_def emitLog_eq errorF_eq)

lemma getMessage_close_fails:
  assumes "started os w" "closeErr os = Some x"
  shows "\<exists>w1. getMessage os body e w = (Inl FailNow, w1) \<and> reported w1 = reported w @ [Fatal x]"
proof -
  from assms obtain a where a: "addr w = Some a" "resolveErr os a = None" "listenErr os a = None"
    by (auto simp: started_def split: option.splits)
  show ?thesis
    by (simp add: getMessage_run [OF a] assms(2) Let_def t_Fatal_def)
qed

lemma ShouldNotReceiveAny_completes:
  assumes "completes os w"
  shows "reported (snd (ShouldNotReceiveAny os loc unexpected body w)) =
     reported w @ emitted (logBuf w @ collectorLines False w body @
       (if present (capture w body) unexpected = [] then []
        else logged ''At: %s:%d'' [GString (fst loc), GInt (snd loc)] #
             map (\<lambda>str. logged ''Expected not to find: %#v'' [GString str])
               (present (capture w body) unexpected) @
             [logged ''But got: %#v'' [GString (capture w body)]]))"
  by (simp add: ShouldNotReceiveAny_def getMessage_completes [OF assms] rangeUnexpected_eq
        defer_emitLog_def emitLog_eq errorF_eq)

lemma ShouldReceiveAllAndNotReceiveAny_completes:
  assumes "completes os w"
  shows "reported (snd (ShouldReceiveAllAndNotReceiveAny os loc expected unexpected body w)) =
     reported w @ emitted (logBuf w @ collectorLines True w body @
       (if missing (capture w body) expected = [] \<and> present (capture w body) unexpected = []
        then []
        else logged ''At: %s:%d'' [GString (fst loc), GInt (snd loc)] #
             map (\<lambda>str. logged ''Expected to find: %#v'' [GString str])
               (missing (capture w body) expected) @
             map (\<lambda>str. logged ''Expected not to find: %#v'' [GString str])
               (present (capture w body) unexpected) @
             [logged ''but got: %#v'' [GString (capture w body)]]))"
  by (simp add: ShouldReceiveAllAndNotReceiveAny_def getMessage_completes [OF assms]
        rangeExpected_eq rangeUnexpected_eq defer_emitLog_def emitLog_eq errorF_eq)

lemma collectorLines_False [simp]: "collectorLines False w body = []"
  by (simp add: collectorLines_def readFailure_def split: option.splits)

lemma collectorLines_True:
  "collectorLines True w body = [] \<longleftrightarrow> \<not> (capture w body = [] \<and> cycleErr w body \<noteq> None)"
  by (auto simp: collectorLines_def readFailure_def split: option.splits)

lemma emitted_Nil_iff [simp]: "emitted lines = [] \<longleftrightarrow> lines = []"
  by (simp add: emitted_def)

lemma missing_Nil_iff: "missing got expected = [] \<longleftrightarrow> list_all (Contains got) expected"
  by (induction expected) (auto simp: missing_def)

lemma present_Nil_iff: "present got unexpected = [] \<longleftrightarrow> list_all (\<lambda>str. \<not> Contains got str) unexpected"
  by (induction unexpected) (auto simp: present_def)

lemma both_checks_pass_iff:
  "noReport w (ShouldReceiveAllAndNotReceiveAny os loc expected unexpected body w) \<longleftrightarrow>
     noReport w (ShouldReceiveAll os loc expected body w) \<and>
     noReport w (ShouldNotReceiveAny os loc unexpected body w)"
proof (cases "started os w")
  case False
  then show ?thesis
    by (auto simp: noReport_def ShouldReceiveAllAndNotReceiveAny_def ShouldReceiveAll_def
          ShouldNotReceiveAny_def getMessage_not_started defer_emitLog_def
          split: option.splits)
next
  case True
  show ?thesis
  proof (cases "closeErr os")
    case None
    with True have c: "completes os w" by (simp add: completes_def)
    show ?thesis
      by (auto simp: noReport_def ShouldReceiveAllAndNotReceiveAny_completes [OF c]
            ShouldReceiveAll_completes [OF c] ShouldNotReceiveAny_completes [OF c])
  next
    case (Some x)
    have g: "\<And>e. \<exists>w1. getMessage os body e w = (Inl FailNow, w1) \<and> reported w1 = reported w @ [Fatal x]"
      using getMessage_close_fails [OF True Some] by blast
    from g [of True] obtain w1 where
      1: "getMessage os body True w = (Inl FailNow, w1)" "reported w1 = reported w @ [Fatal x]"
      by blast
    from g [of False] obtain w2 where
      2: "getMessage os body False w = (Inl FailNow, w2)" "reported w2 = reported w @ [Fatal x]"
      by blast
    show ?thesis
      by (simp add: noReport_def ShouldReceiveAllAndNotReceiveAny_def ShouldReceiveAll_def
            ShouldNotReceiveAny_def 1 2 defer_emitLog_def emitLog_eq)
  qed
qed

lemma getMessage_Ran:
  "count_list (trace (snd (getMessage os body e w))) Ran =
     count_list (trace w) Ran + (if started os w then 1 else 0)"
proof (cases "started os w")
  case False
  then show ?thesis
    by (auto simp: getMessage_not_started t_Fatal_def split: option.splits)
next
  case True
  then obtain a where a: "addr w = Some a" "resolveErr os a = None" "listenErr os a = None"
    by (auto simp: started_def split: option.splits)
  have r: "count_list (map Read ns) Ran = 0" for ns
    by (induction ns) auto
  show ?thesis
    using True
    by (auto simp: getMessage_run [OF a] Let_def t_Fatal_def r split: option.splits)
qed

lemma completes0 [simp]: "completes os0 w0" "started os0 w0"
  by (simp_all add: completes_def started_def os0_def w0_def SetAddr_def init_def)

lemma w0_simps [simp]: "logBuf w0 = []" "reported w0 = []" "Timeout w0 = 1000000" "trace w0 = []"
  "addr w0 = Some '':8126''" "listener w0 = None"
  by (simp_all add: w0_def SetAddr_def init_def)

lemma emitLog_simps [simp]:
  "logBuf (emitLog w) = []"
  "reported (emitLog w) = reported w @ emitted (logBuf w)"
  "trace (emitLog w) = trace w"
  "listener (emitLog w) = listener w"
  by (simp_all add: emitLog_eq)

lemma ShouldReceiveAllAndNotReceiveAny_trace:
  "trace (snd (ShouldReceiveAllAndNotReceiveAny os loc expected unexpected body w)) =
     trace (snd (getMessage os body True w))"
  by (simp add: ShouldReceiveAllAndNotReceiveAny_def defer_emitLog_def rangeExpected_eq
        rangeUnexpected_eq errorF_eq split: prod.splits sum.splits)

lemma capture_body3 [simp]: "capture w0 body3 = ''foobizbar''"
  by (simp add: capture_def body3_def)

lemma cycleErr_body3 [simp]: "cycleErr w0 body3 = Some ''i/o timeout''"
  by (simp add: cycleErr_def body3_def)

lemma get_completes:
  assumes "completes os w"
  shows "get os match body e w =
     (Inr (capture w body, capture w body = match, Contains (capture w body) match),
      snd (getMessage os body e w))"
  by (simp add: get_def getMessage_completes [OF assms])

lemma ShouldReceiveOnly_completes:
  assumes "completes os w"
  shows "reported (snd (ShouldReceiveOnly os loc expected body w)) =
     reported w @ emitted (logBuf w @ collectorLines True w body @
       (if capture w body = expected then []
        else [logged ''At: %s:%d'' [GString (fst loc), GInt (snd loc)],
              logged ''Expected: %#v'' [GString expected],
              logged ''But got: %#v'' [GString (capture w body)]]))"
  by (simp add: ShouldReceiveOnly_def get_completes [OF assms] getMessage_completes [OF assms]
        defer_emitLog_def printLocation_def)

lemma ShouldReceive_completes:
  assumes "completes os w"
  shows "reported (snd (ShouldReceive os loc expected body w)) =
     reported w @ emitted (logBuf w @
       (if Contains (capture w body) expected then []
        else [logged ''At: %s:%d'' [GString (fst loc), GInt (snd loc)],
              logged ''Expected: %#v'' [GString expected],
              logged ''But got: %#v'' [GString (capture w body)]]))"
  by (simp add: ShouldReceive_def get_completes [OF assms] getMessage_completes [OF assms]
        defer_emitLog_def printLocation_def)

lemma capture_Nil [simp]: "capture w [] = []" "cycleErr w [] = Some ''i/o timeout''"
  by (simp_all add: capture_def cycleErr_def)

lemma capture_one [simp]:
  "capture w0 [(0, Packet (c # cs))] = take 32768 (c # cs)"
  by (simp add: capture_def)

lemma logged_udp_error:
  "logged ''Error reading udp data: %v'' [GError e] = ''Error reading udp data: ['' @ e @ '']''"
  by (simp add: logged_def Sprintf_def)

lemma ShouldReceiveNothing_completes:
  assumes "completes os w"
  shows "reported (snd (ShouldReceiveNothing os loc body w)) =
     reported w @ emitted (logBuf w @
       (if capture w body = [] then []
        else [logged ''At: %s:%d'' [GString (fst loc), GInt (snd loc)],
              logged ''Expected no data, but got: %#v'' [GString (capture w body)]]))"
  by (simp add: ShouldReceiveNothing_def get_completes [OF assms] getMessage_completes [OF assms]
        defer_emitLog_def printLocation_def)

lemma assertions_drain_log:
  "logBuf (snd (ShouldReceiveOnly os loc s body w)) = []"
  "logBuf (snd (ShouldNotReceiveOnly os loc s body w)) = []"
  "logBuf (snd (ShouldReceive os loc s body w)) = []"
  "logBuf (snd (ShouldNotReceive os loc s body w)) = []"
  "logBuf (snd (ShouldReceiveNothing os loc body w)) = []"
  "logBuf (snd (ShouldReceiveAll os loc xs body w)) = []"
  "logBuf (snd (ShouldNotReceiveAny os loc ys body w)) = []"
  "logBuf (snd (ShouldReceiveAllAndNotReceiveAny os loc xs ys body w)) = []"
  by (simp_all add: ShouldReceiveOnly_def ShouldNotReceiveOnly_def ShouldReceive_def
        ShouldNotReceive_def ShouldReceiveNothing_def ShouldReceiveAll_def
        ShouldNotReceiveAny_def ShouldReceiveAllAndNotReceiveAny_def defer_emitLog_def)

section \<open>The socket\<close>

lemma oneAtATime_append:
  "oneAtATime b xs \<Longrightarrow> oneAtATime False ys \<Longrightarrow> oneAtATime b (xs @ ys)"
  by (induction b xs rule: oneAtATime.induct) auto

lemma oneAtATime_reads: "oneAtATime True (map Read ns @ [Closed])"
  by (induction ns) auto

lemma getMessage_trace:
  "trace (snd (getMessage os body e w)) =
     trace w @ (if started os w then cycleEffects w body else [])"
proof (cases "started os w")
  case False
  then show ?thesis
    by (auto simp: getMessage_not_started t_Fatal_def split: option.splits)
next
  case True
  then obtain a where a: "addr w = Some a" "resolveErr os a = None" "listenErr os a = None"
    by (auto simp: started_def split: option.splits)
  show ?thesis
    using True
    by (auto simp: getMessage_run [OF a] Let_def t_Fatal_def cycleEffects_def a split: option.splits)
qed

lemma getMessage_socketOpen:
  "\<not> socketOpen w \<Longrightarrow> \<not> socketOpen (snd (getMessage os body e w))"
proof (cases "started os w")
  case False
  assume "\<not> socketOpen w"
  with False show ?thesis
    by (auto simp: getMessage_not_started t_Fatal_def socketOpen_def split: option.splits)
next
  case True
  then obtain a where a: "addr w = Some a" "resolveErr os a = None" "listenErr os a = None"
    by (auto simp: started_def split: option.splits)
  show ?thesis
    by (auto simp: getMessage_run [OF a] Let_def t_Fatal_def socketOpen_def split: option.splits)
qed

lemma oneAtATime_cycleEffects: "started os w \<Longrightarrow> oneAtATime False (cycleEffects w body)"
  by (auto simp: cycleEffects_def started_def oneAtATime_reads split: option.splits)

lemma assertions_listener:
  "listener (snd (ShouldReceiveOnly os loc s body w)) = listener (snd (getMessage os body True w))"
  "listener (snd (ShouldNotReceiveOnly os loc s body w)) = listener (snd (getMessage os body False w))"
  "listener (snd (ShouldReceive os loc s body w)) = listener (snd (getMessage os body False w))"
  "listener (snd (ShouldNotReceive os loc s body w)) = listener (snd (getMessage os body False w))"
  "listener (snd (ShouldReceiveNothing os loc body w)) = listener (snd (getMessage os body False w))"
  "listener (snd (ShouldReceiveAll os loc xs body w)) = listener (snd (getMessage os body True w))"
  "listener (snd (ShouldNotReceiveAny os loc ys body w)) = listener (snd (getMessage os body False w))"
  "listener (snd (ShouldReceiveAllAndNotReceiveAny os loc xs ys body w)) =
     listener (snd (getMessage os body True w))"
  "listener (snd (ReceiveString os body w)) = listener (snd (getMessage os body True w))"
  by (simp_all add: ShouldReceiveOnly_def ShouldNotReceiveOnly_def ShouldReceive_def
        ShouldNotReceive_def ShouldReceiveNothing_def ShouldReceiveAll_def
        ShouldNotReceiveAny_def ShouldReceiveAllAndNotReceiveAny_def ReceiveString_def
        get_def defer_emitLog_def printLocation_def rangeExpected_eq rangeUnexpected_eq
        split: prod.splits sum.splits)

section \<open>The buffer\<close>

lemma payload_simps [simp]:
  "payload (gap, Packet d) = d" "payload (gap, Fault x) = []"
  by (simp_all add: payload_def)

lemma taken_simps [simp]:
  "taken T (gap, Packet d) = (gap < T \<and> d \<noteq> [])" "taken T (gap, Fault x) = False"
  by (simp_all add: taken_def)

lemma captured_zero [simp]: "captured T p 0 = []"
  by (induction T p "0::nat" rule: captured.induct) auto

lemma captured_prefix: "prefix (captured T p room) (concat (map payload p))"
proof (induction T p room rule: captured.induct)
  case (2 T gap d rest room)
  show ?case
  proof (cases "gap < T \<and> d \<noteq> [] \<and> 0 < room")
    case False
    then show ?thesis by auto
  next
    case True
    show ?thesis
    proof (cases "length d \<le> room")
      case le: True
      with True 2 show ?thesis by simp
    next
      case gt: False
      then have "room - length d = 0" by simp
      with True show ?thesis
        by (simp add: take_is_prefix prefix_prefix)
    qed
  qed
qed simp_all

lemma captured_all:
  "list_all (taken T) p \<Longrightarrow> length (concat (map payload p)) \<le> room \<Longrightarrow>
   captured T p room = concat (map payload p)"
proof (induction T p room rule: captured.induct)
  case (2 T gap d rest room)
  from "2.prems" have t: "gap < T" "d \<noteq> []" and r: "list_all (taken T) rest"
    and l: "length d + length (concat (map payload rest)) \<le> room"
    by simp_all
  from t l have pos: "0 < room" "length d \<le> room"
    by (cases d; simp)+
  from l have "length (concat (map payload rest)) \<le> room - length d" by simp
  with r t pos "2.IH" show ?case
    by simp
qed simp_all

lemma readLoop_step:
  assumes "ReadFrom (Timeout w) p (length message - bufLen) = (n, dat, err)" and "0 < n"
  shows "n \<le> length message - bufLen \<and> length dat = n \<and>
         readLoop e p message bufLen w =
           readLoop e (tl p) (take bufLen message @ dat @ drop (bufLen + n) message)
             (bufLen + n) (w\<lparr>trace := trace w @ [Read n]\<rparr>)"
proof -
  have "readLoop e p message bufLen w =
          readLoop e (tl p) (take bufLen message @ dat @ drop (bufLen + n) message)
            (bufLen + n) (w\<lparr>trace := trace w @ [Read n]\<rparr>)"
    using assms by (subst readLoop.simps) (simp add: Let_def)
  moreover have "n \<le> length message - bufLen \<and> length dat = n"
    using assms
    by (auto simp: ReadFrom_def split: list.splits if_splits event.splits)
  ultimately show ?thesis by simp
qed

section \<open>Formatting\<close>

lemma doPrintf_literal:
  "CHR ''%'' \<notin> set p \<Longrightarrow> doPrintf (p @ rest) args = p @ doPrintf rest args"
  by (induction p) auto

lemma Sprintf_sharp_v:
  assumes "CHR ''%'' \<notin> set p"
  shows "Sprintf (p @ ''%#v'') [a] = p @ printValue True (CHR ''v'') a"
  using assms by (simp add: Sprintf_def doPrintf_literal)

lemma Sprintf_v:
  assumes "CHR ''%'' \<notin> set p"
  shows "Sprintf (p @ ''%v'') [a] = p @ printValue False (CHR ''v'') a"
  using assms by (simp add: Sprintf_def doPrintf_literal)

section \<open>Configuration\<close>

text \<open>
  C10. Setting the same address twice in a row, or assigning the same timeout twice in
  a row, gives the same state as doing it once, so every collection cycle that follows
  (and every assertion, which is a function of that state) behaves the same.
\<close>

theorem config_idempotent:
  "SetAddr a (SetAddr a w) = SetAddr a w \<and>
   SetTimeout d (SetTimeout d w) = SetTimeout d w \<and>
   getMessage os body e (SetAddr a (SetAddr a w)) = getMessage os body e (SetAddr a w) \<and>
   getMessage os body e (SetTimeout d (SetTimeout d w)) = getMessage os body e (SetTimeout d w)"
  by (simp add: SetAddr_def SetTimeout_def)

theorem config_idempotent_witness:
  "SetAddr '':8126'' (SetAddr '':8126'' init) = w0 \<and>
   fst (getMessage os0 body3 True (SetTimeout 2000000 (SetTimeout 2000000 w0))) = Inr ''foobizbar'' \<and>
   fst (getMessage os0 body3 True (SetTimeout 0 (SetTimeout 0 w0))) = Inr []"
  using config_idempotent [of "'':8126''" init 2000000 os0 body3 True]
        config_idempotent [of "'':8126''" w0 2000000 os0 body3 True]
        config_idempotent [of "'':8126''" w0 0 os0 body3 True]
  by (simp add: w0_def getMessage_completes completes_def started_def os0_def SetAddr_def
        SetTimeout_def init_def capture_def body3_def)

section \<open>The list assertions\<close>

text \<open>
  C4. \<open>ShouldReceiveAllAndNotReceiveAny\<close> passes exactly when \<open>ShouldReceiveAll\<close> on the
  expected list and \<open>ShouldNotReceiveAny\<close> on the unexpected list both pass, run from the
  same state with the same action, hence against the same payload. It calls the action
  once (the trace gains one \<open>Ran\<close> when the socket is bound, none otherwise). When the
  cycle completes, both loops have run and their lines go to the reporter in a single
  \<open>Error\<close> call: the location, one line for each missing expected string, one line for
  each unexpected string found, and the payload.
\<close>

theorem ReceiveAllAndNotReceiveAny_conjunction:
  "(noReport w (ShouldReceiveAllAndNotReceiveAny os loc expected unexpected body w) \<longleftrightarrow>
      noReport w (ShouldReceiveAll os loc expected body w) \<and>
      noReport w (ShouldNotReceiveAny os loc unexpected body w)) \<and>
   count_list (trace (snd (ShouldReceiveAllAndNotReceiveAny os loc expected unexpected body w))) Ran =
     count_list (trace w) Ran + (if started os w then 1 else 0) \<and>
   (completes os w \<longrightarrow>
      reported (snd (ShouldReceiveAllAndNotReceiveAny os loc expected unexpected body w)) =
        reported w @ emitted (logBuf w @ collectorLines True w body @
          (if missing (capture w body) expected = [] \<and> present (capture w body) unexpected = []
           then []
           else logged ''At: %s:%d'' [GString (fst loc), GInt (snd loc)] #
                map (\<lambda>str. logged ''Expected to find: %#v'' [GString str])
                  (missing (capture w body) expected) @
                map (\<lambda>str. logged ''Expected not to find: %#v'' [GString str])
                  (present (capture w body) unexpected) @
                [logged ''but got: %#v'' [GString (capture w body)]])))"
  using both_checks_pass_iff [of w os loc expected unexpected body]
        getMessage_Ran [of os body True w]
        ShouldReceiveAllAndNotReceiveAny_completes [of os w loc expected unexpected body]
  by (simp add: ShouldReceiveAllAndNotReceiveAny_trace)

theorem ReceiveAllAndNotReceiveAny_conjunction_witness:
  "noReport w0 (ShouldReceiveAllAndNotReceiveAny os0 loc0 [''foo'', ''bar''] [''fooby'', ''bars''] body3 w0) \<and>
   noReport w0 (ShouldReceiveAll os0 loc0 [''foo'', ''bar''] body3 w0) \<and>
   noReport w0 (ShouldNotReceiveAny os0 loc0 [''fooby'', ''bars''] body3 w0) \<and>
   count_list (trace (snd (ShouldReceiveAllAndNotReceiveAny os0 loc0 [''foo'', ''baz''] [''biz'', ''qux''] body3 w0))) Ran = 1 \<and>
   completes os0 w0 \<and>
   reported (snd (ShouldReceiveAllAndNotReceiveAny os0 loc0 [''foo'', ''baz''] [''biz'', ''qux''] body3 w0)) =
     [Error (Join [logged ''At: %s:%d'' [GString ''udp_test.go'', GInt 56],
                   logged ''Expected to find: %#v'' [GString ''baz''],
                   logged ''Expected not to find: %#v'' [GString ''biz''],
                   logged ''but got: %#v'' [GString ''foobizbar'']] [CHR 0x0A])]"
  using ReceiveAllAndNotReceiveAny_conjunction [of w0 os0 loc0 "[''foo'', ''bar'']" "[''fooby'', ''bars'']" body3]
        ReceiveAllAndNotReceiveAny_conjunction [of w0 os0 loc0 "[''foo'', ''baz'']" "[''biz'', ''qux'']" body3]
  apply (simp add: noReport_def ShouldReceiveAll_completes ShouldNotReceiveAny_completes
        collectorLines_def readFailure_def missing_def present_def emitted_def loc0_def)
  done

text \<open>
  C5, as stated, fails: with nothing sent, every string of the list \<open>[""]\<close> is contained
  in the (empty) payload, yet \<open>ShouldReceiveAll\<close> reports the collector's read failure.
\<close>

theorem ShouldReceiveAll_empty_counterexample:
  "fst (getMessage os0 [] True w0) = Inr [] \<and> list_all (Contains []) [''''] \<and>
   reported (snd (ShouldReceiveAll os0 loc0 [''''] [] w0)) =
     [Error ''Error reading udp data: [i/o timeout]'']"
  by (simp add: ShouldReceiveAll_completes getMessage_completes collectorLines_def
        readFailure_def emitted_def missing_def Sprintf_def)

text \<open>
  C5, amended. When the cycle completes and the log is empty at the call,
  \<open>ShouldReceiveAll\<close> passes exactly when every string of the list occurs in the payload
  and the collector has recorded no read failure (the payload is not empty, or the last
  read gave no error). The payload is the concatenation of what arrived, so neither the
  order of the datagrams nor other bytes between them matter. When a string is missing,
  the reporter gets one \<open>Error\<close> call: the collector's line if there is one, the
  location, one \<open>Expected to find\<close> line for each missing string in the order of the
  list, and one last line with the whole payload.
\<close>

theorem ShouldReceiveAll_passes_iff:
  assumes "completes os w" and "logBuf w = []"
  shows "fst (getMessage os body True w) = Inr (capture w body) \<and>
         (noReport w (ShouldReceiveAll os loc expected body w) \<longleftrightarrow>
            list_all (Contains (capture w body)) expected \<and>
            \<not> (capture w body = [] \<and> cycleErr w body \<noteq> None)) \<and>
         (\<not> list_all (Contains (capture w body)) expected \<longrightarrow>
            reported (snd (ShouldReceiveAll os loc expected body w)) =
              reported w @
              [Error (Join
                 (collectorLines True w body @
                  logged ''At: %s:%d'' [GString (fst loc), GInt (snd loc)] #
                  map (\<lambda>str. logged ''Expected to find: %#v'' [GString str])
                    (missing (capture w body) expected) @
                  [logged ''But got: %#v'' [GString (capture w body)]])
                 [CHR 0x0A])])"
  using assms
  by (auto simp add: noReport_def ShouldReceiveAll_completes getMessage_completes
        collectorLines_True missing_Nil_iff emitted_def)

theorem ShouldReceiveAll_passes_iff_witness:
  "completes os0 w0 \<and> logBuf w0 = [] \<and>
   noReport w0 (ShouldReceiveAll os0 loc0 [''foo'', ''bar''] body3 w0) \<and>
   \<not> list_all (Contains (capture w0 body3)) [''baz'', ''foo'', ''qux''] \<and>
   reported (snd (ShouldReceiveAll os0 loc0 [''baz'', ''foo'', ''qux''] body3 w0)) =
     [Error (Join [logged ''At: %s:%d'' [GString ''udp_test.go'', GInt 56],
                   logged ''Expected to find: %#v'' [GString ''baz''],
                   logged ''Expected to find: %#v'' [GString ''qux''],
                   logged ''But got: %#v'' [GString ''foobizbar'']] [CHR 0x0A])]"
  using ShouldReceiveAll_passes_iff [where os = os0 and w = w0 and loc = loc0
          and expected = "[''foo'', ''bar'']" and body = body3]
        ShouldReceiveAll_passes_iff [where os = os0 and w = w0 and loc = loc0
          and expected = "[''baz'', ''foo'', ''qux'']" and body = body3]
  by (simp add: collectorLines_def readFailure_def missing_def loc0_def)

section \<open>The single-string assertions\<close>

text \<open>
  When the cycle completes, \<open>get\<close> returns the payload with contains computed by
  \<open>strings.Contains\<close>, and \<open>ShouldReceive\<close> passes exactly when the log is empty at the
  call and the expected string occurs in the payload at some offset.
\<close>

lemma ShouldReceive_passes_iff:
  assumes "completes os w"
  shows "fst (get os expected body False w) =
            Inr (capture w body, capture w body = expected,
                 Contains (capture w body) expected) \<and>
         (noReport w (ShouldReceive os loc expected body w) \<longleftrightarrow>
            logBuf w = [] \<and> Contains (capture w body) expected) \<and>
         (Contains (capture w body) expected \<longleftrightarrow>
            (\<exists>before after. capture w body = before @ expected @ after))"
  using assms
  by (auto simp add: noReport_def ShouldReceive_completes get_completes Contains_sublist
        sublist_def)

text \<open>
  From the state after \<open>SetAddr\<close>, where the log is empty: expecting \<open>foo\<close>, the payloads
  \<open>barfoo\<close>, \<open>foobar\<close> and \<open>foo\<close> pass, the payload \<open>fo\<close> and the empty payload fail.
\<close>

lemma ShouldReceive_examples:
  "noReport w0 (ShouldReceive os0 loc0 ''foo'' [(0, Packet ''barfoo'')] w0) \<and>
   noReport w0 (ShouldReceive os0 loc0 ''foo'' [(0, Packet ''foobar'')] w0) \<and>
   noReport w0 (ShouldReceive os0 loc0 ''foo'' [(0, Packet ''foo'')] w0) \<and>
   \<not> noReport w0 (ShouldReceive os0 loc0 ''foo'' [(0, Packet ''fo'')] w0) \<and>
   \<not> noReport w0 (ShouldReceive os0 loc0 ''foo'' [] w0)"
  using ShouldReceive_passes_iff [where os = os0 and w = w0 and loc = loc0
          and expected = "''foo''" and body = "[(0, Packet ''barfoo'')]"]
        ShouldReceive_passes_iff [where os = os0 and w = w0 and loc = loc0
          and expected = "''foo''" and body = "[(0, Packet ''foobar'')]"]
        ShouldReceive_passes_iff [where os = os0 and w = w0 and loc = loc0
          and expected = "''foo''" and body = "[(0, Packet ''foo'')]"]
        ShouldReceive_passes_iff [where os = os0 and w = w0 and loc = loc0
          and expected = "''foo''" and body = "[(0, Packet ''fo'')]"]
        ShouldReceive_passes_iff [where os = os0 and w = w0 and loc = loc0
          and expected = "''foo''" and body = "[]"]
  by simp

text \<open>
  C6. \<open>ShouldReceive\<close> is to pass exactly when the expected string occurs in the
  payload. The code breaks this after a \<open>ReceiveString\<close> that received nothing, which
  returns with the collector's line still in \<open>logBuf\<close>: the action then sends \<open>foo\<close>, the
  payload is \<open>foo\<close> and \<open>get\<close> returns contains true, yet \<open>ShouldReceive\<close> for \<open>foo\<close> reports
  the line left behind. The same call from the state after \<open>SetAddr\<close> reports nothing.
\<close>

theorem ShouldReceive_reports_stale_failure:
  "logBuf (snd (ReceiveString os0 [] w0)) = [''Error reading udp data: [i/o timeout]''] \<and>
   fst (get os0 ''foo'' [(0, Packet ''foo'')] False (snd (ReceiveString os0 [] w0))) =
     Inr (''foo'', True, True) \<and>
   reported (snd (ShouldReceive os0 loc0 ''foo'' [(0, Packet ''foo'')]
                    (snd (ReceiveString os0 [] w0)))) =
     [Error ''Error reading udp data: [i/o timeout]''] \<and>
   reported (snd (ShouldReceive os0 loc0 ''foo'' [(0, Packet ''foo'')] w0)) = []"
proof -
  have c: "completes os0 (snd (ReceiveString os0 [] w0))"
    by (simp add: ReceiveString_def getMessage_completes completes_def started_def os0_def)
  have t: "Timeout (snd (ReceiveString os0 [] w0)) = 1000000"
    by (simp add: ReceiveString_def getMessage_completes)
  have p: "capture (snd (ReceiveString os0 [] w0)) [(0, Packet ''foo'')] = ''foo''"
    by (simp add: capture_def t)
  show ?thesis
    by (simp add: ShouldReceive_completes [OF c] get_completes [OF c] p
          ShouldReceive_completes)
       (simp add: ReceiveString_def getMessage_completes collectorLines_def readFailure_def
          emitted_def Sprintf_def)
qed

text \<open>
  C1, as stated, fails: when the action sends nothing and the expected string is empty,
  the payload equals the expected string (\<open>get\<close> returns equals and contains true), yet
  \<open>ShouldReceiveOnly\<close> reports the read failure that the collector records because it
  is called with \<open>expectData\<close> set.
\<close>

theorem ShouldReceiveOnly_empty_counterexample:
  "capture w0 [] = [] \<and>
   fst (get os0 [] [] True w0) = Inr ([], True, True) \<and>
   reported (snd (ShouldReceiveOnly os0 loc0 [] [] w0)) =
     [Error ''Error reading udp data: [i/o timeout]'']"
  by (simp add: get_completes ShouldReceiveOnly_completes collectorLines_def readFailure_def
        emitted_def logged_def Sprintf_def)

text \<open>
  C1, amended. When the cycle completes and the log is empty at the call,
  \<open>ShouldReceiveOnly\<close> passes exactly when the payload equals the expected string and the
  collector has recorded no read failure (the payload is not empty, or the last read
  gave no error, as after a datagram of length 0). \<open>get\<close> returns the payload with
  equals and contains computed from it; when the action sends nothing and the expected
  string is empty both are true, and the assertion does not pass.
\<close>

theorem ShouldReceiveOnly_passes_iff:
  assumes "completes os w" and "logBuf w = []"
  shows "(noReport w (ShouldReceiveOnly os loc s body w) \<longleftrightarrow>
            capture w body = s \<and> \<not> (capture w body = [] \<and> cycleErr w body \<noteq> None)) \<and>
         fst (get os s body True w) =
            Inr (capture w body, capture w body = s, Contains (capture w body) s) \<and>
         fst (get os [] [] True w) = Inr ([], True, True) \<and>
         \<not> noReport w (ShouldReceiveOnly os loc [] [] w)"
  using assms
  by (auto simp add: noReport_def ShouldReceiveOnly_completes get_completes collectorLines_True)

theorem ShouldReceiveOnly_passes_iff_witness:
  "completes os0 w0 \<and> logBuf w0 = [] \<and>
   noReport w0 (ShouldReceiveOnly os0 loc0 ''foo'' [(0, Packet ''foo'')] w0) \<and>
   \<not> noReport w0 (ShouldReceiveOnly os0 loc0 ''foo'' [(0, Packet ''bar'')] w0) \<and>
   noReport w0 (ShouldReceiveOnly os0 loc0 [] [(0, Packet [])] w0) \<and>
   \<not> noReport w0 (ShouldReceiveOnly os0 loc0 [] [] w0)"
  using ShouldReceiveOnly_passes_iff [of os0 w0 loc0 "''foo''" "[(0, Packet ''foo'')]"]
        ShouldReceiveOnly_passes_iff [of os0 w0 loc0 "''foo''" "[(0, Packet ''bar'')]"]
        ShouldReceiveOnly_passes_iff [of os0 w0 loc0 "[]" "[(0, Packet [])]"]
  by (simp add: capture_def cycleErr_def)

section \<open>The collector's failure\<close>

text \<open>
  C3, as stated, fails: when the only arrival is a datagram of length 0, no byte is
  captured and \<open>expectData\<close> is set, yet nothing is recorded, because the read returned
  no error.
\<close>

theorem empty_datagram_counterexample:
  "capture w0 [(0, Packet [])] = [] \<and>
   fst (getMessage os0 [(0, Packet [])] True w0) = Inr [] \<and>
   logBuf (snd (getMessage os0 [(0, Packet [])] True w0)) = []"
  by (simp add: getMessage_completes capture_def cycleErr_def collectorLines_def readFailure_def)

text \<open>
  C3, amended. In a cycle whose socket is bound, the collector records its failure
  (\<open>Error reading udp data\<close>) exactly when no byte was captured, \<open>expectData\<close> is set and
  the read that ended the loop returned an error; with \<open>expectData\<close> false it records
  nothing.
\<close>

theorem collector_failure_iff:
  assumes "started os w"
  shows "(logBuf (snd (getMessage os body expectData w)) =
            logBuf w @
            (case cycleErr w body of
               Some err \<Rightarrow>
                 (if capture w body = [] \<and> expectData
                  then [logged ''Error reading udp data: %v'' [GError err]] else [])
             | None \<Rightarrow> [])) \<and>
         (logBuf (snd (getMessage os body expectData w)) \<noteq> logBuf w \<longleftrightarrow>
            capture w body = [] \<and> expectData \<and> cycleErr w body \<noteq> None) \<and>
         logBuf (snd (getMessage os body False w)) = logBuf w \<and>
         (closeErr os = None \<longrightarrow>
            fst (getMessage os body expectData w) = Inr (capture w body))"
proof -
  from assms obtain a where a: "addr w = Some a" "resolveErr os a = None" "listenErr os a = None"
    by (auto simp: started_def split: option.splits)
  show ?thesis
    by (auto simp: getMessage_run [OF a] Let_def t_Fatal_def readFailure_def capture_def
          cycleErr_def logged_def split: option.splits)
qed

theorem collector_failure_iff_witness:
  "started os0 w0 \<and>
   logBuf (snd (getMessage os0 [] True w0)) = [''Error reading udp data: [i/o timeout]''] \<and>
   logBuf (snd (getMessage os0 [] False w0)) = [] \<and>
   logBuf (snd (getMessage os0 [(0, Packet [])] True w0)) = [] \<and>
   logBuf (snd (getMessage os0 [(0, Fault ''connection refused'')] True w0)) =
     [''Error reading udp data: [connection refused]''] \<and>
   logBuf (snd (getMessage os0 [(0, Packet ''foo'')] True w0)) = []"
  using collector_failure_iff [of os0 w0 "[]" True]
        collector_failure_iff [of os0 w0 "[(0, Packet [])]" True]
        collector_failure_iff [of os0 w0 "[(0, Fault ''connection refused'')]" True]
        collector_failure_iff [of os0 w0 "[(0, Packet ''foo'')]" True]
  by (simp add: capture_def cycleErr_def logged_udp_error)

section \<open>The socket and the buffer of a cycle\<close>

text \<open>
  C7. A collection cycle that binds its socket has the effects: open the socket, call
  the action, read until a read returns 0, close the socket; a cycle whose \<open>start\<close>
  fails has none. So when no socket is open at the call and the trace so far kept one
  socket at a time, the same holds when \<open>getMessage\<close> returns, on every path (including
  the one that records a read failure), and no assertion leaves a socket open.
\<close>

theorem cycle_opens_and_closes:
  assumes "\<not> socketOpen w" and "oneAtATime False (trace w)"
  shows "trace (snd (getMessage os body e w)) =
           trace w @ (if started os w then cycleEffects w body else []) \<and>
         oneAtATime False (trace (snd (getMessage os body e w))) \<and>
         \<not> socketOpen (snd (getMessage os body e w)) \<and>
         \<not> socketOpen (snd (ShouldReceiveOnly os loc s body w)) \<and>
         \<not> socketOpen (snd (ShouldNotReceiveOnly os loc s body w)) \<and>
         \<not> socketOpen (snd (ShouldReceive os loc s body w)) \<and>
         \<not> socketOpen (snd (ShouldNotReceive os loc s body w)) \<and>
         \<not> socketOpen (snd (ShouldReceiveNothing os loc body w)) \<and>
         \<not> socketOpen (snd (ShouldReceiveAll os loc xs body w)) \<and>
         \<not> socketOpen (snd (ShouldNotReceiveAny os loc ys body w)) \<and>
         \<not> socketOpen (snd (ShouldReceiveAllAndNotReceiveAny os loc xs ys body w)) \<and>
         \<not> socketOpen (snd (ReceiveString os body w))"
proof -
  have closed: "\<not> socketOpen (snd (getMessage os body e' w))" for e'
    using assms(1) by (rule getMessage_socketOpen)
  have tr: "oneAtATime False (trace (snd (getMessage os body e w)))"
    using assms(2) by (simp add: getMessage_trace oneAtATime_append oneAtATime_cycleEffects)
  show ?thesis
    using closed [of True] closed [of False] closed [of e] tr
    by (simp add: getMessage_trace socketOpen_def assertions_listener)
qed

theorem cycle_opens_and_closes_witness:
  "\<not> socketOpen w0 \<and> oneAtATime False (trace w0) \<and>
   trace (snd (getMessage os0 body3 True w0)) =
     [Opened '':8126'', Ran, Read 3, Read 3, Read 3, Read 0, Closed] \<and>
   trace (snd (getMessage os0 [] True w0)) = [Opened '':8126'', Ran, Read 0, Closed] \<and>
   logBuf (snd (getMessage os0 [] True w0)) \<noteq> [] \<and>
   \<not> socketOpen (snd (getMessage os0 [] True w0)) \<and>
   \<not> socketOpen (snd (ShouldReceiveOnly os0 loc0 ''foo'' [] w0))"
  using cycle_opens_and_closes [of w0 os0 body3 True loc0 "''foo''" "[]" "[]"]
        cycle_opens_and_closes [of w0 os0 "[]" True loc0 "''foo''" "[]" "[]"]
  by (simp add: socketOpen_def cycleEffects_def body3_def getMessage_completes
        collectorLines_def readFailure_def)

text \<open>
  C8. The loop reads into the buffer at the offset \<open>bufLen\<close>. A read of \<open>n > 0\<close> bytes
  gives at most as many bytes as the buffer has left and moves the offset by \<open>n\<close>. From
  an offset inside the buffer the loop ends with a buffer of the same length and an
  offset inside it, which is the old offset plus the sizes of the reads, and the buffer
  up to the offset is the old prefix followed by the bytes collected. For \<open>getMessage\<close>
  the buffer has 32768 bytes: the payload has as many bytes as were read, at most 32768,
  and is a prefix of the concatenation of the arrivals in their order; it is the whole
  concatenation when every datagram is taken and all of them fit.
\<close>

theorem buffer_offset_bounded:
  "(bufLen \<le> length message \<longrightarrow>
      (case readLoop e p message bufLen w of
         ((message', bufLen'), w') \<Rightarrow>
           length message' = length message \<and>
           bufLen' \<le> length message' \<and>
           bufLen' = bufLen + sum_list (readSizes (Timeout w) p (length message - bufLen)) \<and>
           trace w' = trace w @ map Read (readSizes (Timeout w) p (length message - bufLen)) \<and>
           take bufLen' message' =
             take bufLen message @ captured (Timeout w) p (length message - bufLen))) \<and>
   (ReadFrom (Timeout w) p (length message - bufLen) = (n, dat, err) \<and> 0 < n \<longrightarrow>
      n \<le> length message - bufLen \<and> length dat = n \<and>
      readLoop e p message bufLen w =
        readLoop e (tl p) (take bufLen message @ dat @ drop (bufLen + n) message)
          (bufLen + n) (w\<lparr>trace := trace w @ [Read n]\<rparr>)) \<and>
   (completes os w \<longrightarrow>
      fst (getMessage os body e w) = Inr (capture w body) \<and>
      length (capture w body) \<le> 32768 \<and>
      length (capture w body) = sum_list (readSizes (Timeout w) body 32768) \<and>
      prefix (capture w body) (concat (map payload body)) \<and>
      (list_all (taken (Timeout w)) body \<and> length (concat (map payload body)) \<le> 32768 \<longrightarrow>
         capture w body = concat (map payload body)))"
proof -
  have loop: "bufLen \<le> length message \<Longrightarrow>
      (case readLoop e p message bufLen w of
         ((message', bufLen'), w') \<Rightarrow>
           length message' = length message \<and>
           bufLen' \<le> length message' \<and>
           bufLen' = bufLen + sum_list (readSizes (Timeout w) p (length message - bufLen)) \<and>
           trace w' = trace w @ map Read (readSizes (Timeout w) p (length message - bufLen)) \<and>
           take bufLen' message' =
             take bufLen message @ captured (Timeout w) p (length message - bufLen))"
    using length_captured [of "Timeout w" p "length message - bufLen"]
    by (simp add: readLoop_eq Let_def sum_readSizes)
  have cyc: "completes os w \<Longrightarrow>
      fst (getMessage os body e w) = Inr (capture w body) \<and>
      length (capture w body) \<le> 32768 \<and>
      length (capture w body) = sum_list (readSizes (Timeout w) body 32768) \<and>
      prefix (capture w body) (concat (map payload body)) \<and>
      (list_all (taken (Timeout w)) body \<and> length (concat (map payload body)) \<le> 32768 \<longrightarrow>
         capture w body = concat (map payload body))"
    by (simp add: getMessage_completes capture_def length_captured sum_readSizes
          captured_prefix captured_all)
  show ?thesis
    using loop cyc readLoop_step [of w p message bufLen n dat err e]
    by blast
qed

theorem buffer_offset_bounded_witness:
  "completes os0 w0 \<and>
   fst (getMessage os0 body3 True w0) = Inr ''foobizbar'' \<and>
   list_all (taken (Timeout w0)) body3 \<and>
   concat (map payload body3) = ''foobizbar'' \<and>
   readLoop True [(0, Packet ''de'')] ''abc00'' 3 w0 =
     ((''abcde'', 5), w0\<lparr>trace := [Read 2, Read 0]\<rparr>) \<and>
   readLoop True [(0, Packet ''defg''), (0, Packet ''h'')] ''abc00'' 3 w0 =
     ((''abcde'', 5), w0\<lparr>trace := [Read 2, Read 0]\<rparr>)"
  using buffer_offset_bounded [where bufLen = 3 and message = "''abc00''" and e = True
          and p = "[(0, Packet ''de'')]" and w = w0 and n = 2 and dat = "''de''" and err = None
          and os = os0 and body = body3]
  by (simp add: body3_def ReadFrom_def readLoop_eq readFailure_def)

section \<open>The failure log\<close>

text \<open>
  C9. \<open>errorF\<close> passes its variadic arguments to the formatter as one slice. A line
  whose format ends in \<open>%#v\<close> therefore holds the string wrapped in
  \<open>[]interface {}{...}\<close> and not the bare quoted string that the format would give with
  the arguments expanded; the collector's line holds the error in brackets; the
  location line holds the file and the line number in brackets under \<open>%s\<close>, and
  \<open>%d\<close> has no operand.
\<close>

theorem errorF_passes_args_as_one_slice:
  "logBuf (errorF format args w) = logBuf w @ [Sprintf format [GSlice args]] \<and>
   (CHR ''%'' \<notin> set p \<longrightarrow>
      logBuf (errorF (p @ ''%#v'') [GString s] w) =
        logBuf w @ [p @ ''[]interface {}{'' @ Quote s @ ''}''] \<and>
      Sprintf (p @ ''%#v'') [GString s] = p @ Quote s \<and>
      logBuf (errorF (p @ ''%v'') [GError err] w) = logBuf w @ [p @ ''['' @ err @ '']''] \<and>
      Sprintf (p @ ''%v'') [GError err] = p @ err) \<and>
   logBuf (errorF ''At: %s:%d'' [GString fname, GInt lineno] w) =
     logBuf w @ [''At: ['' @ fname @ '' %!s(int='' @ Itoa lineno @ '')]:%!d(MISSING)''] \<and>
   Sprintf ''At: %s:%d'' [GString fname, GInt lineno] = ''At: '' @ fname @ '':'' @ Itoa lineno"
  by (simp add: errorF_def Sprintf_sharp_v Sprintf_v) (simp add: Sprintf_def)

theorem errorF_passes_args_as_one_slice_witness:
  "CHR ''%'' \<notin> set ''Expected: '' \<and>
   logBuf (errorF ''Expected: %#v'' [GString ''foo''] w0) =
     [''Expected: []interface {}{'' @ [CHR 0x22] @ ''foo'' @ [CHR 0x22] @ ''}''] \<and>
   Sprintf ''Expected: %#v'' [GString ''foo''] = ''Expected: '' @ [CHR 0x22] @ ''foo'' @ [CHR 0x22] \<and>
   logBuf (errorF ''But got: %#v'' [GString ''bar''] w0) =
     [''But got: []interface {}{'' @ [CHR 0x22] @ ''bar'' @ [CHR 0x22] @ ''}''] \<and>
   logBuf (errorF ''Error reading udp data: %v'' [GError ''i/o timeout''] w0) =
     [''Error reading udp data: [i/o timeout]''] \<and>
   logBuf (errorF ''At: %s:%d'' [GString ''udp_test.go'', GInt 56] w0) =
     [''At: [udp_test.go %!s(int=56)]:%!d(MISSING)'']"
  using errorF_passes_args_as_one_slice [where format = "''Expected: %#v''"
          and args = "[GString ''foo'']" and w = w0 and p = "''Expected: ''" and s = "''foo''"
          and err = "''i/o timeout''" and fname = "''udp_test.go''" and lineno = 56]
        errorF_passes_args_as_one_slice [where format = "''But got: %#v''"
          and args = "[GString ''bar'']" and w = w0 and p = "''Error reading udp data: ''"
          and s = "''bar''" and err = "''i/o timeout''" and fname = "''udp_test.go''"
          and lineno = 56]
  by (simp add: logged_def Sprintf_def Quote_def quoteByte_def Itoa_def digits.simps)

text \<open>
  C2. \<open>ReceiveString\<close> calls the collector with \<open>expectData\<close> set and has no deferred
  \<open>emitLog\<close>: when nothing arrives it returns with the collector's line still in
  \<open>logBuf\<close> and nothing reported, and the next assertion, here a \<open>ShouldReceiveNothing\<close>
  that receives nothing and passes on its own, reports that line. (The eight
  assertions do leave the log empty: \<open>assertions_drain_log\<close>.)
\<close>

theorem ReceiveString_leaves_failure_in_log:
  "fst (ReceiveString os0 [] w0) = Inr [] \<and>
   reported (snd (ReceiveString os0 [] w0)) = [] \<and>
   logBuf (snd (ReceiveString os0 [] w0)) = [''Error reading udp data: [i/o timeout]''] \<and>
   reported (snd (ShouldReceiveNothing os0 loc0 [] (snd (ReceiveString os0 [] w0)))) =
     [Error ''Error reading udp data: [i/o timeout]''] \<and>
   reported (snd (ShouldReceiveNothing os0 loc0 [] w0)) = []"
proof -
  have c: "completes os0 (snd (ReceiveString os0 [] w0))"
    by (simp add: ReceiveString_def getMessage_completes completes_def started_def os0_def)
  show ?thesis
    by (simp add: ShouldReceiveNothing_completes [OF c] ShouldReceiveNothing_completes)
       (simp add: ReceiveString_def getMessage_completes collectorLines_def readFailure_def
          emitted_def Sprintf_def)
qed

end
